theory Spec2Isabelle
  imports Main
begin

section \<open>Data model of \<open>src/infinite-scroll.ts\<close>\<close>

text \<open>
  The enum \<open>PureInfiniteScrollEvent\<close> of the source: the two boundary kinds.
\<close>

datatype PureInfiniteScrollEvent = ScrolledBottom | ScrolledTop

text \<open>
  The host environment. A DOM node is represented by its structure, because the only
  comparison the source makes between nodes is \<open>isEqualNode\<close>, which is structural.
  An \<open>HTMLElement\<close> carries the three geometry properties the source reads and the child
  list whose first and last entries it inspects. Pixel quantities and the threshold are
  integers (\<open>scrollHeight\<close> and \<open>clientHeight\<close> are integers in the DOM; the source's
  \<open>number\<close> arithmetic is exact on integers of this size).
\<close>

datatype node = Element string "node list" | Text string

record HTMLElement =
  scrollTop :: int
  scrollHeight :: int
  clientHeight :: int
  childNodes :: "node list"

record MutationRecord =
  addedNodes :: "node list"
  removedNodes :: "node list"

datatype error = TypeError

type_synonym element_ref = nat
type_synonym observer = nat

text \<open>
  The state of one \<open>PureInfiniteScroll\<close> instance together with the part of the host it
  touches. Host side: \<open>document\<close> is the store of elements (the watcher holds references
  into it, so that \<open>container\<close> and \<open>contentContainer\<close> may be the same element),
  \<open>observing\<close> lists the connected \<open>MutationObserver\<close>s with the event kind their callback
  closed over, \<open>nextObserver\<close> is the next fresh observer identity, and \<open>emitted\<close> is the
  log of \<open>this.emit(event)\<close> calls in order. The remaining fields are those of the class.
\<close>

record PureInfiniteScroll =
  document :: "element_ref \<Rightarrow> HTMLElement"
  observing :: "(observer \<times> PureInfiniteScrollEvent) list"
  nextObserver :: observer
  emitted :: "PureInfiniteScrollEvent list"
  container :: element_ref
  contentContainer :: element_ref
  threshold :: int
  handleEvents :: "PureInfiniteScrollEvent list"
  isWaitingEvents :: "PureInfiniteScrollEvent \<Rightarrow> bool"
  observerEvents :: "PureInfiniteScrollEvent \<Rightarrow> observer option"
  previousScrollHeight :: int
  previousScrollTop :: int

section \<open>Operations\<close>

text \<open>
  The constructor. An omitted optional argument is \<open>None\<close>; \<open>??\<close> supplies the default.
  The scroll listener it registers is the \<open>ScrollNotification\<close> step below.
\<close>

definition constructor ::
  "(element_ref \<Rightarrow> HTMLElement) \<Rightarrow> element_ref \<Rightarrow> element_ref option \<Rightarrow> int option \<Rightarrow>
   PureInfiniteScrollEvent list option \<Rightarrow> PureInfiniteScroll" where
  "constructor doc c cc th he =
     \<lparr> document = doc,
       observing = [],
       nextObserver = 0,
       emitted = [],
       container = c,
       contentContainer = (case cc of None \<Rightarrow> c | Some x \<Rightarrow> x),
       threshold = (case th of None \<Rightarrow> 0 | Some t \<Rightarrow> t),
       handleEvents = (case he of None \<Rightarrow> [ScrolledBottom, ScrolledTop] | Some es \<Rightarrow> es),
       isWaitingEvents = (\<lambda>_. False),
       observerEvents = (\<lambda>_. None),
       previousScrollHeight = 0,
       previousScrollTop = 0 \<rparr>"

definition isScrolledBottom :: "PureInfiniteScroll \<Rightarrow> bool" where
  "isScrolledBottom w =
     (let c = document w (container w)
      in scrollHeight c - scrollTop c - clientHeight c \<le> threshold w)"

definition isScrolledTop :: "PureInfiniteScroll \<Rightarrow> bool" where
  "isScrolledTop w = (scrollTop (document w (container w)) \<le> threshold w)"

text \<open>\<open>EventEmitter.emit\<close>: the listeners of the kind are notified; the model logs the call.\<close>

definition emit :: "PureInfiniteScrollEvent \<Rightarrow> PureInfiniteScroll \<Rightarrow> PureInfiniteScroll" where
  "emit event w = w\<lparr>emitted := emitted w @ [event]\<rparr>"

text \<open>
  \<open>waitForContentChanges\<close>: a new observer whose callback closes over \<open>event\<close> is stored in
  \<open>observerEvents[event]\<close> (whatever was there is overwritten, not disconnected) and is
  connected to the content container.
\<close>

definition waitForContentChanges ::
  "PureInfiniteScrollEvent \<Rightarrow> PureInfiniteScroll \<Rightarrow> PureInfiniteScroll" where
  "waitForContentChanges event w =
     w\<lparr>observerEvents := (observerEvents w)(event := Some (nextObserver w)),
       observing := observing w @ [(nextObserver w, event)],
       nextObserver := Suc (nextObserver w)\<rparr>"

definition emitEvent :: "PureInfiniteScrollEvent \<Rightarrow> PureInfiniteScroll \<Rightarrow> PureInfiniteScroll" where
  "emitEvent event w =
     (if isWaitingEvents w event \<or> event \<notin> set (handleEvents w) then w
      else
        let w1 = w\<lparr>isWaitingEvents := (isWaitingEvents w)(event := True)\<rparr>;
            w2 = w1\<lparr>previousScrollHeight := scrollHeight (document w1 (container w1))\<rparr>;
            w3 = w2\<lparr>previousScrollTop := scrollTop (document w2 (container w2))\<rparr>;
            w4 = waitForContentChanges event w3
        in emit event w4)"

text \<open>
  \<open>handleScroll\<close>: the list \<open>events\<close> is built from both predicates first, then
  \<open>forEach\<close> raises them in list order.
\<close>

definition handleScroll :: "PureInfiniteScroll \<Rightarrow> PureInfiniteScroll" where
  "handleScroll w =
     (let events = (if isScrolledBottom w then [ScrolledBottom] else []) @
                   (if isScrolledTop w then [ScrolledTop] else [])
      in fold emitEvent events w)"

definition handleContentChanges :: "PureInfiniteScroll \<Rightarrow> PureInfiniteScroll" where
  "handleContentChanges w =
     (let c = document w (container w);
          newScrollHeight = scrollHeight c;
          heightDifference = newScrollHeight - previousScrollHeight w
      in w\<lparr>document := (document w)
             (container w := c\<lparr>scrollTop := previousScrollTop w + heightDifference\<rparr>)\<rparr>)"

text \<open>
  Host primitives used by the observer callback. Indexing a JavaScript array out of
  range gives \<open>undefined\<close> (\<open>None\<close>); \<open>isEqualNode\<close> of \<open>undefined\<close> is \<open>false\<close>;
  \<open>firstChild\<close> and \<open>lastChild\<close> of an element without children are \<open>null\<close>.
\<close>

definition nodeAt :: "node list \<Rightarrow> int \<Rightarrow> node option" where
  "nodeAt xs i = (if 0 \<le> i \<and> i < int (length xs) then Some (xs ! nat i) else None)"

definition isEqualNode :: "node \<Rightarrow> node option \<Rightarrow> bool" where
  "isEqualNode n other = (other = Some n)"

definition firstChild :: "HTMLElement \<Rightarrow> node option" where
  "firstChild e = (case childNodes e of [] \<Rightarrow> None | x # _ \<Rightarrow> Some x)"

definition lastChild :: "HTMLElement \<Rightarrow> node option" where
  "lastChild e = (case childNodes e of [] \<Rightarrow> None | _ # _ \<Rightarrow> Some (last (childNodes e)))"

definition disconnect :: "observer \<Rightarrow> PureInfiniteScroll \<Rightarrow> PureInfiniteScroll" where
  "disconnect ob w = w\<lparr>observing := filter (\<lambda>p. fst p \<noteq> ob) (observing w)\<rparr>"

text \<open>
  The two locals of the observer callback. \<open>mutation\<close> is \<open>mutations[0]\<close>; the optional
  chaining \<open>?.\<close> yields \<open>undefined\<close> (\<open>Inr None\<close>) without evaluating the argument when the
  content container has no child, and otherwise reading \<open>mutation.addedNodes\<close> of an
  empty batch throws.
\<close>

definition mutationStart :: "PureInfiniteScroll \<Rightarrow> MutationRecord list \<Rightarrow> error + bool option" where
  "mutationStart w mutations =
     (case firstChild (document w (contentContainer w)) of
        None \<Rightarrow> Inr None
      | Some f \<Rightarrow>
          (case mutations of
             [] \<Rightarrow> Inl TypeError
           | mutation # _ \<Rightarrow> Inr (Some (isEqualNode f (nodeAt (addedNodes mutation) 0)))))"

definition mutationEnd :: "PureInfiniteScroll \<Rightarrow> MutationRecord list \<Rightarrow> error + bool option" where
  "mutationEnd w mutations =
     (case lastChild (document w (contentContainer w)) of
        None \<Rightarrow> Inr None
      | Some l \<Rightarrow>
          (case mutations of
             [] \<Rightarrow> Inl TypeError
           | mutation # _ \<Rightarrow>
               Inr (Some (isEqualNode l
                 (nodeAt (addedNodes mutation) (int (length (addedNodes mutation)) - 1))))))"

text \<open>
  The callback given to \<open>new MutationObserver\<close> in \<open>waitForContentChanges(event)\<close>.
\<close>

definition mutationCallback ::
  "PureInfiniteScrollEvent \<Rightarrow> MutationRecord list \<Rightarrow> PureInfiniteScroll \<Rightarrow> error + PureInfiniteScroll" where
  "mutationCallback event mutations w =
     (case mutationStart w mutations of
        Inl e \<Rightarrow> Inl e
      | Inr ms \<Rightarrow>
          (case mutationEnd w mutations of
             Inl e \<Rightarrow> Inl e
           | Inr me \<Rightarrow>
               if (ms = Some True \<and> event = ScrolledTop) \<or> (me = Some True \<and> event = ScrolledBottom)
               then
                 let w1 = (case observerEvents w event of None \<Rightarrow> w | Some ob \<Rightarrow> disconnect ob w);
                     w2 = w1\<lparr>observerEvents := (observerEvents w1)(event := None)\<rparr>;
                     w3 = w2\<lparr>isWaitingEvents := (isWaitingEvents w2)(event := False)\<rparr>
                 in Inr (if event = ScrolledTop then handleContentChanges w3 else w3)
               else Inr w))"

section \<open>Notifications delivered by the host\<close>

text \<open>
  Between notifications the host may change any element (\<open>HostSet\<close>: scrolling, layout,
  insertion of children). \<open>ScrollNotification\<close> invokes the registered scroll listener.
  \<open>MutationNotification ob batch\<close> delivers a batch of records to observer \<open>ob\<close>: a
  disconnected observer receives nothing, and an exception thrown by the callback
  leaves the state as it was (the callback throws before its first write).
\<close>

datatype action =
    HostSet element_ref HTMLElement
  | ScrollNotification
  | MutationNotification observer "MutationRecord list"

fun step :: "action \<Rightarrow> PureInfiniteScroll \<Rightarrow> PureInfiniteScroll" where
  "step (HostSet r e) w = w\<lparr>document := (document w)(r := e)\<rparr>"
| "step ScrollNotification w = handleScroll w"
| "step (MutationNotification ob batch) w =
     (case map_of (observing w) ob of
        None \<Rightarrow> w
      | Some event \<Rightarrow>
          (case mutationCallback event batch w of Inl _ \<Rightarrow> w | Inr w' \<Rightarrow> w'))"

definition run :: "action list \<Rightarrow> PureInfiniteScroll \<Rightarrow> PureInfiniteScroll" where
  "run acts w = fold step acts w"

section \<open>Vocabulary of the specification\<close>

text \<open>
  A record is a start-insertion when its first added node equals the content container's
  current first child, an end-insertion when its last added node equals the current last
  child; it is relevant to the Top kind in the first case and to the Bottom kind in the
  second.
\<close>

definition startInsertion :: "MutationRecord \<Rightarrow> HTMLElement \<Rightarrow> bool" where
  "startInsertion m cc =
     (addedNodes m \<noteq> [] \<and> childNodes cc \<noteq> [] \<and> hd (addedNodes m) = hd (childNodes cc))"

definition endInsertion :: "MutationRecord \<Rightarrow> HTMLElement \<Rightarrow> bool" where
  "endInsertion m cc =
     (addedNodes m \<noteq> [] \<and> childNodes cc \<noteq> [] \<and> last (addedNodes m) = last (childNodes cc))"

fun relevant :: "PureInfiniteScrollEvent \<Rightarrow> MutationRecord \<Rightarrow> HTMLElement \<Rightarrow> bool" where
  "relevant ScrolledTop m cc = startInsertion m cc"
| "relevant ScrolledBottom m cc = endInsertion m cc"

fun near :: "PureInfiniteScrollEvent \<Rightarrow> PureInfiniteScroll \<Rightarrow> bool" where
  "near ScrolledBottom w = isScrolledBottom w"
| "near ScrolledTop w = isScrolledTop w"

text \<open>
  \<open>cleared k\<close> is the state after the three writes the observer callback makes on a
  relevant record (disconnect, null the handle, clear the flag). A delivery is relevant
  to kind \<open>k\<close> when it reaches an observer whose callback closed over \<open>k\<close> and its first
  record is relevant to \<open>k\<close>; \<open>noRelevantMutation k acts w\<close> says that no action of the
  run \<open>acts\<close> from \<open>w\<close> is such a delivery. \<open>raised k w\<close> says that a scroll
  notification in \<open>w\<close> raises \<open>k\<close>. \<open>activeObservers k w\<close> are the connected observers of
  kind \<open>k\<close>, and \<open>observerInvariant\<close> ties them to the handles and the pending flags.
\<close>

definition cleared :: "PureInfiniteScrollEvent \<Rightarrow> PureInfiniteScroll \<Rightarrow> PureInfiniteScroll" where
  "cleared k w =
     (case observerEvents w k of None \<Rightarrow> w | Some ob \<Rightarrow> disconnect ob w)
       \<lparr>observerEvents := (observerEvents w)(k := None),
        isWaitingEvents := (isWaitingEvents w)(k := False)\<rparr>"

fun relevantDelivery :: "PureInfiniteScrollEvent \<Rightarrow> action \<Rightarrow> PureInfiniteScroll \<Rightarrow> bool" where
  "relevantDelivery k (MutationNotification ob batch) w =
     (map_of (observing w) ob = Some k \<and>
      (case batch of [] \<Rightarrow> False | m # _ \<Rightarrow> relevant k m (document w (contentContainer w))))"
| "relevantDelivery k (HostSet r e) w = False"
| "relevantDelivery k ScrollNotification w = False"

fun noRelevantMutation :: "PureInfiniteScrollEvent \<Rightarrow> action list \<Rightarrow> PureInfiniteScroll \<Rightarrow> bool" where
  "noRelevantMutation k [] w = True"
| "noRelevantMutation k (a # as) w = (\<not> relevantDelivery k a w \<and> noRelevantMutation k as (step a w))"

definition raised :: "PureInfiniteScrollEvent \<Rightarrow> PureInfiniteScroll \<Rightarrow> bool" where
  "raised k w = (near k w \<and> \<not> isWaitingEvents w k \<and> k \<in> set (handleEvents w))"

definition activeObservers :: "PureInfiniteScrollEvent \<Rightarrow> PureInfiniteScroll \<Rightarrow> observer list" where
  "activeObservers k w = map fst (filter (\<lambda>p. snd p = k) (observing w))"

definition observerInvariant :: "PureInfiniteScroll \<Rightarrow> bool" where
  "observerInvariant w \<longleftrightarrow>
     distinct (map fst (observing w)) \<and>
     (\<forall>p \<in> set (observing w). fst p < nextObserver w) \<and>
     (\<forall>k ob. (ob, k) \<in> set (observing w) \<longleftrightarrow> observerEvents w k = Some ob) \<and>
     (\<forall>k. isWaitingEvents w k \<longleftrightarrow> observerEvents w k \<noteq> None)"

section \<open>States of the test suite\<close>

text \<open>
  The set-up of \<open>test/infinite-scroll.test.ts\<close>: element 0 is the scrollable container
  (\<open>clientHeight\<close> 200, \<open>scrollHeight\<close> 1000), element 1 the content container, the
  threshold is 50. The other states differ in the threshold or the starting geometry, or
  are reached by the actions named in their definitions.
\<close>

definition newNode :: node where
  "newNode = Element ''div'' []"

definition geometry :: "int \<Rightarrow> int \<Rightarrow> int \<Rightarrow> HTMLElement" where
  "geometry st sh ch = \<lparr>scrollTop = st, scrollHeight = sh, clientHeight = ch, childNodes = []\<rparr>"

definition content :: "node list \<Rightarrow> HTMLElement" where
  "content ns = \<lparr>scrollTop = 0, scrollHeight = 0, clientHeight = 0, childNodes = ns\<rparr>"

definition added :: "node list \<Rightarrow> MutationRecord" where
  "added ns = \<lparr>addedNodes = ns, removedNodes = []\<rparr>"

definition testDocument :: "element_ref \<Rightarrow> HTMLElement" where
  "testDocument = (\<lambda>_. content [])(0 := geometry 0 1000 200)"

definition infiniteScroll :: PureInfiniteScroll where
  "infiniteScroll = constructor testDocument 0 (Some 1) (Some 50) None"

definition atBottom :: PureInfiniteScroll where
  "atBottom = step (HostSet 0 (geometry 800 1000 200)) infiniteScroll"

definition nearTop100 :: PureInfiniteScroll where
  "nearTop100 = constructor (testDocument(0 := geometry 100 1000 200)) 0 (Some 1) (Some 100) None"

definition prepended :: "action list" where
  "prepended = [HostSet 1 (content [newNode]), HostSet 0 (geometry 100 1200 200)]"

definition bottomRaisedInBetween :: "action list" where
  "bottomRaisedInBetween =
     [ScrollNotification,
      HostSet 0 (geometry 800 1000 200),
      ScrollNotification,
      HostSet 1 (content [newNode]),
      HostSet 0 (geometry 800 1200 200)]"

definition topPending :: PureInfiniteScroll where
  "topPending = run [ScrollNotification, HostSet 1 (content [newNode])] infiniteScroll"

definition bothNear :: PureInfiniteScroll where
  "bothNear = constructor (testDocument(0 := geometry 400 1000 200)) 0 (Some 1) (Some 400) None"

definition customScroll :: PureInfiniteScroll where
  "customScroll = constructor testDocument 0 (Some 1) (Some 50) (Some [ScrolledTop])"

definition bottomPendingAppended :: PureInfiniteScroll where
  "bottomPendingAppended = run [ScrollNotification, HostSet 1 (content [newNode])] atBottom"

section \<open>Facts about the operations\<close>

lemma nodeAt_first: "nodeAt xs 0 = (if xs = [] then None else Some (hd xs))"
  by (simp add: nodeAt_def hd_conv_nth)

lemma nodeAt_last: "nodeAt xs (int (length xs) - 1) = (if xs = [] then None else Some (last xs))"
  by (cases xs rule: rev_cases) (simp_all add: nodeAt_def nth_append)

lemma mutationStart_Cons:
  "mutationStart w (m # ms) =
     Inr (if childNodes (document w (contentContainer w)) = [] then None
          else Some (startInsertion m (document w (contentContainer w))))"
  by (auto simp: mutationStart_def firstChild_def isEqualNode_def nodeAt_first startInsertion_def
      split: list.splits)

lemma mutationEnd_Cons:
  "mutationEnd w (m # ms) =
     Inr (if childNodes (document w (contentContainer w)) = [] then None
          else Some (endInsertion m (document w (contentContainer w))))"
  by (auto simp: mutationEnd_def lastChild_def isEqualNode_def nodeAt_last endInsertion_def
      split: list.splits)

lemma mutationCallback_Cons:
  "mutationCallback k (m # ms) w =
     Inr (if relevant k m (document w (contentContainer w))
          then (if k = ScrolledTop then handleContentChanges (cleared k w) else cleared k w)
          else w)"
  by (cases k)
     (auto simp: mutationCallback_def mutationStart_Cons mutationEnd_Cons cleared_def Let_def
        disconnect_def startInsertion_def endInsertion_def split: option.splits)

lemma emitEvent_noop:
  "isWaitingEvents w k \<or> k \<notin> set (handleEvents w) \<Longrightarrow> emitEvent k w = w"
  by (simp add: emitEvent_def)

lemma emitEvent_fires:
  "\<not> isWaitingEvents w k \<Longrightarrow> k \<in> set (handleEvents w) \<Longrightarrow>
   emitEvent k w =
     w\<lparr>isWaitingEvents := (isWaitingEvents w)(k := True),
       previousScrollHeight := scrollHeight (document w (container w)),
       previousScrollTop := scrollTop (document w (container w)),
       observerEvents := (observerEvents w)(k := Some (nextObserver w)),
       observing := observing w @ [(nextObserver w, k)],
       nextObserver := Suc (nextObserver w),
       emitted := emitted w @ [k]\<rparr>"
  by (simp add: emitEvent_def Let_def waitForContentChanges_def emit_def)

lemma emitEvent_emitted:
  "emitted (emitEvent k w) =
     emitted w @ (if isWaitingEvents w k \<or> k \<notin> set (handleEvents w) then [] else [k])"
  by (simp add: emitEvent_noop emitEvent_fires)

lemma emitEvent_frame:
  "document (emitEvent k w) = document w"
  "container (emitEvent k w) = container w"
  "contentContainer (emitEvent k w) = contentContainer w"
  "threshold (emitEvent k w) = threshold w"
  "handleEvents (emitEvent k w) = handleEvents w"
  by (cases "isWaitingEvents w k \<or> k \<notin> set (handleEvents w)";
      simp add: emitEvent_noop emitEvent_fires)+

lemma emitEvent_flags:
  "isWaitingEvents (emitEvent k w) k' =
     (isWaitingEvents w k' \<or> (k' = k \<and> k \<in> set (handleEvents w)))"
  by (cases "isWaitingEvents w k \<or> k \<notin> set (handleEvents w)")
     (auto simp: emitEvent_noop emitEvent_fires)

lemma handleScroll_both:
  "handleScroll w =
     (if isScrolledTop w then emitEvent ScrolledTop else id)
       ((if isScrolledBottom w then emitEvent ScrolledBottom else id) w)"
  by (simp add: handleScroll_def)

lemma near_emitEvent: "near k' (emitEvent k w) = near k' w"
  by (cases k') (simp_all add: isScrolledBottom_def isScrolledTop_def emitEvent_frame)

lemma handleScroll_emitted:
  "emitted (handleScroll w) = emitted w @ filter (\<lambda>k. raised k w) [ScrolledBottom, ScrolledTop]"
  by (simp add: handleScroll_both emitEvent_emitted emitEvent_flags emitEvent_frame raised_def)

lemma handleScroll_flags:
  "isWaitingEvents (handleScroll w) k = (isWaitingEvents w k \<or> (near k w \<and> k \<in> set (handleEvents w)))"
  by (cases k) (auto simp: handleScroll_both emitEvent_flags emitEvent_frame)

lemma mutationCallback_Nil:
  "mutationCallback k [] w =
     (if childNodes (document w (contentContainer w)) = [] then Inr w else Inl TypeError)"
  by (simp add: mutationCallback_def mutationStart_def mutationEnd_def firstChild_def lastChild_def
      split: list.splits)

lemma cleared_fields:
  "emitted (cleared k w) = emitted w"
  "isWaitingEvents (cleared k w) = (isWaitingEvents w)(k := False)"
  "observerEvents (cleared k w) = (observerEvents w)(k := None)"
  "document (cleared k w) = document w"
  "container (cleared k w) = container w"
  "contentContainer (cleared k w) = contentContainer w"
  "previousScrollTop (cleared k w) = previousScrollTop w"
  "previousScrollHeight (cleared k w) = previousScrollHeight w"
  "handleEvents (cleared k w) = handleEvents w"
  "threshold (cleared k w) = threshold w"
  "nextObserver (cleared k w) = nextObserver w"
  by (simp_all add: cleared_def disconnect_def split: option.splits)

lemma handleContentChanges_fields:
  "emitted (handleContentChanges w) = emitted w"
  "isWaitingEvents (handleContentChanges w) = isWaitingEvents w"
  "observerEvents (handleContentChanges w) = observerEvents w"
  "observing (handleContentChanges w) = observing w"
  "container (handleContentChanges w) = container w"
  "contentContainer (handleContentChanges w) = contentContainer w"
  "previousScrollTop (handleContentChanges w) = previousScrollTop w"
  "previousScrollHeight (handleContentChanges w) = previousScrollHeight w"
  "handleEvents (handleContentChanges w) = handleEvents w"
  "threshold (handleContentChanges w) = threshold w"
  "nextObserver (handleContentChanges w) = nextObserver w"
  by (simp_all add: handleContentChanges_def Let_def)

lemma step_pending:
  assumes "isWaitingEvents w k" and "\<not> relevantDelivery k a w"
  shows "isWaitingEvents (step a w) k \<and> count_list (emitted (step a w)) k = count_list (emitted w) k"
proof (cases a)
  case (HostSet r e)
  with assms show ?thesis by simp
next
  case ScrollNotification
  with assms show ?thesis
    by (cases k) (simp_all add: handleScroll_emitted handleScroll_flags raised_def)
next
  case (MutationNotification ob batch)
  show ?thesis
  proof (cases "map_of (observing w) ob")
    case None
    with MutationNotification assms show ?thesis by simp
  next
    case (Some k')
    show ?thesis
    proof (cases batch)
      case Nil
      with MutationNotification Some assms show ?thesis
        by (simp add: mutationCallback_Nil)
    next
      case (Cons m ms)
      with MutationNotification Some assms show ?thesis
        by (auto simp: mutationCallback_Cons cleared_fields handleContentChanges_fields)
    qed
  qed
qed

lemma run_pending:
  "isWaitingEvents w k \<Longrightarrow> noRelevantMutation k acts w \<Longrightarrow>
   isWaitingEvents (run acts w) k \<and> count_list (emitted (run acts w)) k = count_list (emitted w) k"
proof (induction acts arbitrary: w)
  case Nil
  then show ?case by (simp add: run_def)
next
  case (Cons a acts)
  from Cons.prems have s: "isWaitingEvents (step a w) k"
    "count_list (emitted (step a w)) k = count_list (emitted w) k"
    using step_pending [of w k a] by simp_all
  from Cons.prems have "noRelevantMutation k acts (step a w)" by simp
  with Cons.IH [OF s(1)] s(2) show ?case by (simp add: run_def)
qed

lemma noRelevantMutation_scrolls: "noRelevantMutation k (replicate n ScrollNotification) w"
  by (induction n arbitrary: w) simp_all

lemma inv_constructor: "observerInvariant (constructor doc c cc th he)"
  by (simp add: observerInvariant_def constructor_def)

lemma inv_emitEvent: "observerInvariant w \<Longrightarrow> observerInvariant (emitEvent k w)"
proof (cases "isWaitingEvents w k \<or> k \<notin> set (handleEvents w)")
  case True
  assume "observerInvariant w"
  with True show ?thesis by (simp add: emitEvent_noop)
next
  case False
  assume i: "observerInvariant w"
  let ?w' = "emitEvent k w"
  from False i have none: "observerEvents w k = None"
    by (simp add: observerInvariant_def)
  from i have fresh: "nextObserver w \<notin> fst ` set (observing w)"
    by (auto simp: observerInvariant_def)
  from False have f:
    "observing ?w' = observing w @ [(nextObserver w, k)]"
    "nextObserver ?w' = Suc (nextObserver w)"
    "observerEvents ?w' = (observerEvents w)(k := Some (nextObserver w))"
    "isWaitingEvents ?w' = (isWaitingEvents w)(k := True)"
    by (simp_all add: emitEvent_fires)
  have 1: "distinct (map fst (observing ?w'))"
    using i fresh by (simp add: f observerInvariant_def)
  have 2: "\<forall>p \<in> set (observing ?w'). fst p < nextObserver ?w'"
    using i by (auto simp: f observerInvariant_def less_Suc_eq)
  have 3: "((ob, k') \<in> set (observing ?w')) = (observerEvents ?w' k' = Some ob)" for ob k'
  proof (cases "k' = k")
    case True
    have "(ob, k) \<notin> set (observing w)" using i none by (simp add: observerInvariant_def)
    with True show ?thesis by (auto simp: f)
  next
    case False
    with i show ?thesis by (simp add: f observerInvariant_def)
  qed
  have 4: "isWaitingEvents ?w' k' = (observerEvents ?w' k' \<noteq> None)" for k'
    using i by (simp add: f observerInvariant_def)
  from 1 2 3 4 show ?thesis unfolding observerInvariant_def by blast
qed

lemma inv_handleScroll: "observerInvariant w \<Longrightarrow> observerInvariant (handleScroll w)"
  by (simp add: handleScroll_both inv_emitEvent)

lemma cleared_observing:
  "observing (cleared k w) =
     (case observerEvents w k of None \<Rightarrow> observing w
      | Some ob \<Rightarrow> filter (\<lambda>p. fst p \<noteq> ob) (observing w))"
  by (simp add: cleared_def disconnect_def split: option.splits)

lemma inv_cleared: "observerInvariant w \<Longrightarrow> observerInvariant (cleared k w)"
proof -
  assume i: "observerInvariant w"
  let ?w' = "cleared k w"
  from i have d: "distinct (map fst (observing w))" by (simp add: observerInvariant_def)
  from i have m: "((ob, k') \<in> set (observing w)) = (observerEvents w k' = Some ob)" for ob k'
    by (simp add: observerInvariant_def)
  have sub: "set (observing ?w') \<subseteq> set (observing w)"
    by (auto simp: cleared_observing split: option.splits)
  have 1: "distinct (map fst (observing ?w'))"
    using d by (simp add: cleared_observing distinct_map_filter split: option.splits)
  have 2: "\<forall>p \<in> set (observing ?w'). fst p < nextObserver ?w'"
    using i sub by (auto simp: observerInvariant_def cleared_fields)
  have 3: "((ob, k') \<in> set (observing ?w')) = (observerEvents ?w' k' = Some ob)" for ob k'
  proof (cases "observerEvents w k")
    case None
    then show ?thesis using m by (auto simp: cleared_observing cleared_fields)
  next
    case (Some h)
    then have hk: "(h, k) \<in> set (observing w)" using m by simp
    show ?thesis
    proof (cases "k' = k")
      case True
      then show ?thesis using Some m by (auto simp: cleared_observing cleared_fields)
    next
      case False
      have "ob \<noteq> h" if "(ob, k') \<in> set (observing w)"
        using that hk d False eq_key_imp_eq_value by fastforce
      with False Some show ?thesis using m by (auto simp: cleared_observing cleared_fields)
    qed
  qed
  have 4: "isWaitingEvents ?w' k' = (observerEvents ?w' k' \<noteq> None)" for k'
    using i by (simp add: cleared_fields observerInvariant_def)
  from 1 2 3 4 show ?thesis unfolding observerInvariant_def by blast
qed

lemma inv_handleContentChanges:
  "observerInvariant w \<Longrightarrow> observerInvariant (handleContentChanges w)"
  by (simp add: observerInvariant_def handleContentChanges_fields)

lemma inv_step: "observerInvariant w \<Longrightarrow> observerInvariant (step a w)"
proof (cases a)
  case (HostSet r e)
  assume "observerInvariant w"
  with HostSet show ?thesis by (simp add: observerInvariant_def)
next
  case ScrollNotification
  assume "observerInvariant w"
  with ScrollNotification show ?thesis by (simp add: inv_handleScroll)
next
  case (MutationNotification ob batch)
  assume i: "observerInvariant w"
  show ?thesis
  proof (cases batch)
    case Nil
    with MutationNotification i show ?thesis
      by (simp add: mutationCallback_Nil split: option.splits)
  next
    case (Cons m ms)
    with MutationNotification i show ?thesis
      by (simp add: mutationCallback_Cons inv_cleared inv_handleContentChanges split: option.splits)
  qed
qed

lemma inv_run: "observerInvariant w \<Longrightarrow> observerInvariant (run acts w)"
  by (induction acts arbitrary: w) (simp_all add: run_def inv_step)

lemma distinct_singleton: "distinct xs \<Longrightarrow> set xs = {x} \<Longrightarrow> xs = [x]"
  by (cases xs) (auto simp: subset_singleton_iff)

lemma inv_active:
  assumes "observerInvariant w"
  shows "activeObservers k w = (case observerEvents w k of None \<Rightarrow> [] | Some ob \<Rightarrow> [ob])"
proof -
  from assms have d: "distinct (activeObservers k w)"
    by (simp add: observerInvariant_def activeObservers_def distinct_map_filter)
  from assms have m: "((ob, k) \<in> set (observing w)) = (observerEvents w k = Some ob)" for ob
    by (simp add: observerInvariant_def)
  have "(ob \<in> set (activeObservers k w)) = ((ob, k) \<in> set (observing w))" for ob
  proof
    assume "ob \<in> set (activeObservers k w)"
    then obtain p where "p \<in> set (observing w)" "snd p = k" "fst p = ob"
      by (auto simp: activeObservers_def)
    then show "(ob, k) \<in> set (observing w)" by (metis prod.collapse)
  next
    assume "(ob, k) \<in> set (observing w)"
    then have "(ob, k) \<in> set (filter (\<lambda>p. snd p = k) (observing w))" by simp
    then have "fst (ob, k) \<in> fst ` set (filter (\<lambda>p. snd p = k) (observing w))"
      by (rule imageI)
    then show "ob \<in> set (activeObservers k w)" by (simp add: activeObservers_def)
  qed
  with m have s: "set (activeObservers k w) = {ob. observerEvents w k = Some ob}"
    by blast
  show ?thesis
  proof (cases "observerEvents w k")
    case None
    with s show ?thesis by simp
  next
    case (Some ob)
    with s have "set (activeObservers k w) = {ob}" by auto
    with d Some show ?thesis by (simp add: distinct_singleton)
  qed
qed

lemma step_frame:
  "container (step a w) = container w"
  "contentContainer (step a w) = contentContainer w"
  "handleEvents (step a w) = handleEvents w"
  "threshold (step a w) = threshold w"
proof -
  have "container (step a w) = container w \<and> contentContainer (step a w) = contentContainer w \<and>
        handleEvents (step a w) = handleEvents w \<and> threshold (step a w) = threshold w"
  proof (cases a)
    case (HostSet r e)
    then show ?thesis by simp
  next
    case ScrollNotification
    then show ?thesis by (simp add: handleScroll_both emitEvent_frame)
  next
    case (MutationNotification ob batch)
    then show ?thesis
      by (cases batch)
         (simp_all add: mutationCallback_Nil mutationCallback_Cons cleared_fields
            handleContentChanges_fields split: option.splits)
  qed
  then show "container (step a w) = container w"
    "contentContainer (step a w) = contentContainer w"
    "handleEvents (step a w) = handleEvents w"
    "threshold (step a w) = threshold w" by simp_all
qed

lemma run_frame:
  "container (run acts w) = container w"
  "contentContainer (run acts w) = contentContainer w"
  "handleEvents (run acts w) = handleEvents w"
  "threshold (run acts w) = threshold w"
  by (induction acts arbitrary: w; simp add: run_def step_frame)+

lemma handleScroll_quiet:
  "\<not> raised ScrolledBottom w \<Longrightarrow> \<not> raised ScrolledTop w \<Longrightarrow> handleScroll w = w"
  by (auto simp: handleScroll_both raised_def emitEvent_noop)

lemma step_emitted:
  "\<exists>new. emitted (step a w) = emitted w @ new \<and>
     (new = [] \<longrightarrow> previousScrollTop (step a w) = previousScrollTop w \<and>
                   previousScrollHeight (step a w) = previousScrollHeight w)"
proof (cases a)
  case (HostSet r e)
  then show ?thesis by simp
next
  case ScrollNotification
  have "filter (\<lambda>k. raised k w) [ScrolledBottom, ScrolledTop] = [] \<longrightarrow> handleScroll w = w"
    by (auto simp: handleScroll_quiet split: if_splits)
  with ScrollNotification show ?thesis
    by (metis handleScroll_emitted step.simps(2))
next
  case (MutationNotification ob batch)
  then show ?thesis
    by (cases batch)
       (simp_all add: mutationCallback_Nil mutationCallback_Cons cleared_fields
          handleContentChanges_fields split: option.splits)
qed

lemma run_emitted: "\<exists>new. emitted (run acts w) = emitted w @ new"
proof (induction acts arbitrary: w)
  case Nil
  then show ?case by (simp add: run_def)
next
  case (Cons a acts)
  obtain n1 where 1: "emitted (step a w) = emitted w @ n1" using step_emitted by blast
  obtain n2 where 2: "emitted (run acts (step a w)) = emitted (step a w) @ n2"
    using Cons.IH by blast
  from 1 2 show ?case by (simp add: run_def)
qed

lemma run_snapshot:
  "emitted (run acts w) = emitted w \<Longrightarrow>
   previousScrollTop (run acts w) = previousScrollTop w \<and>
   previousScrollHeight (run acts w) = previousScrollHeight w"
proof (induction acts arbitrary: w)
  case Nil
  then show ?case by (simp add: run_def)
next
  case (Cons a acts)
  obtain n1 where 1: "emitted (step a w) = emitted w @ n1"
    and s: "n1 = [] \<longrightarrow> previousScrollTop (step a w) = previousScrollTop w \<and>
                   previousScrollHeight (step a w) = previousScrollHeight w"
    using step_emitted by blast
  obtain n2 where 2: "emitted (run acts (step a w)) = emitted (step a w) @ n2"
    using run_emitted by blast
  have r: "run (a # acts) w = run acts (step a w)" by (simp add: run_def)
  from Cons.prems 1 2 r have "n1 = []" "n2 = []" by simp_all
  with 2 have "emitted (run acts (step a w)) = emitted (step a w)" by simp
  from Cons.IH [OF this] s \<open>n1 = []\<close> r show ?case by simp
qed

lemma step_disabled:
  assumes "k \<notin> set (handleEvents w)"
  shows "count_list (emitted (step a w)) k = count_list (emitted w) k"
proof (cases a)
  case (HostSet r e)
  then show ?thesis by simp
next
  case ScrollNotification
  with assms show ?thesis by (cases k) (simp_all add: handleScroll_emitted raised_def)
next
  case (MutationNotification ob batch)
  then show ?thesis
    by (cases batch)
       (simp_all add: mutationCallback_Nil mutationCallback_Cons cleared_fields
          handleContentChanges_fields split: option.splits)
qed

lemma run_disabled:
  "k \<notin> set (handleEvents w) \<Longrightarrow> count_list (emitted (run acts w)) k = count_list (emitted w) k"
proof (induction acts arbitrary: w)
  case Nil
  then show ?case by (simp add: run_def)
next
  case (Cons a acts)
  from Cons.prems have "k \<notin> set (handleEvents (step a w))" by (simp add: step_frame)
  from Cons.IH [OF this] step_disabled [OF Cons.prems, of a] show ?case by (simp add: run_def)
qed

lemmas eval_defs = constructor_def testDocument_def infiniteScroll_def geometry_def content_def
  added_def newNode_def run_def handleScroll_def emitEvent_def waitForContentChanges_def emit_def
  isScrolledBottom_def isScrolledTop_def Let_def mutationCallback_def mutationStart_def
  mutationEnd_def firstChild_def lastChild_def isEqualNode_def nodeAt_def disconnect_def
  handleContentChanges_def startInsertion_def endInsertion_def

section \<open>Properties\<close>

text \<open>
  C1. For every geometry of the container and every threshold, \<open>isScrolledBottom\<close> holds
  iff \<open>scrollHeight - scrollTop - clientHeight \<le> threshold\<close> and \<open>isScrolledTop\<close> holds
  iff \<open>scrollTop \<le> threshold\<close>. With threshold 0, \<open>scrollTop = 0\<close> gives
  \<open>isScrolledTop\<close> and every \<open>scrollTop > 0\<close> does not: the comparison is \<open>\<le>\<close>.
\<close>

theorem boundary_predicates:
  "document w (container w) = \<lparr>scrollTop = st, scrollHeight = sh, clientHeight = ch, childNodes = cs\<rparr>
   \<Longrightarrow> threshold w = t
   \<Longrightarrow> (isScrolledBottom w \<longleftrightarrow> sh - st - ch \<le> t) \<and> (isScrolledTop w \<longleftrightarrow> st \<le> t) \<and>
       (t = 0 \<longrightarrow> (st = 0 \<longrightarrow> isScrolledTop w) \<and> (0 < st \<longrightarrow> \<not> isScrolledTop w))"
  by (simp add: isScrolledBottom_def isScrolledTop_def)

text \<open>The test container with threshold 0 and \<open>scrollTop = 0\<close>.\<close>

theorem boundary_predicates_witness:
  "document (constructor testDocument 0 (Some 1) (Some 0) None)
     (container (constructor testDocument 0 (Some 1) (Some 0) None)) =
     \<lparr>scrollTop = 0, scrollHeight = 1000, clientHeight = 200, childNodes = []\<rparr> \<and>
   threshold (constructor testDocument 0 (Some 1) (Some 0) None) = 0 \<and>
   isScrolledTop (constructor testDocument 0 (Some 1) (Some 0) None) \<and>
   \<not> isScrolledBottom (constructor testDocument 0 (Some 1) (Some 0) None)"
proof -
  let ?w = "constructor testDocument 0 (Some 1) (Some 0) None"
  have g: "document ?w (container ?w) =
      \<lparr>scrollTop = 0, scrollHeight = 1000, clientHeight = 200, childNodes = []\<rparr>"
    by (simp add: constructor_def testDocument_def geometry_def)
  have t: "threshold ?w = 0" by (simp add: constructor_def)
  from boundary_predicates [OF g t] g t show ?thesis by simp
qed

text \<open>
  C2. Once kind \<open>k\<close> is pending, raising it again is a no-op, and along every run that
  contains no relevant mutation delivery for \<open>k\<close> (in particular every sequence of
  scroll notifications and host changes) the kind stays pending and no further event
  of kind \<open>k\<close> is emitted. From an idle, enabled state near the boundary, any number
  \<open>n + 1\<close> of repeated scroll notifications emits the event exactly once.
\<close>

theorem no_reraise_while_pending:
  "(isWaitingEvents w k \<longrightarrow> noRelevantMutation k acts w \<longrightarrow>
      emitEvent k w = w \<and>
      isWaitingEvents (run acts w) k \<and>
      count_list (emitted (run acts w)) k = count_list (emitted w) k) \<and>
   (near k w0 \<longrightarrow> \<not> isWaitingEvents w0 k \<longrightarrow> k \<in> set (handleEvents w0) \<longrightarrow>
      count_list (emitted (run (replicate (Suc n) ScrollNotification) w0)) k =
        count_list (emitted w0) k + 1)"
proof (intro conjI impI)
  assume "isWaitingEvents w k"
  then show "emitEvent k w = w" by (simp add: emitEvent_noop)
next
  assume "isWaitingEvents w k" "noRelevantMutation k acts w"
  then show "isWaitingEvents (run acts w) k" using run_pending by blast
next
  assume "isWaitingEvents w k" "noRelevantMutation k acts w"
  then show "count_list (emitted (run acts w)) k = count_list (emitted w) k"
    using run_pending by blast
next
  assume n: "near k w0" and i: "\<not> isWaitingEvents w0 k" and e: "k \<in> set (handleEvents w0)"
  let ?w1 = "handleScroll w0"
  have p: "isWaitingEvents ?w1 k" using n e by (simp add: handleScroll_flags)
  have c: "count_list (emitted ?w1) k = count_list (emitted w0) k + 1"
    using n i e by (cases k) (simp_all add: handleScroll_emitted raised_def)
  have "run (replicate (Suc n) ScrollNotification) w0 = run (replicate n ScrollNotification) ?w1"
    by (simp add: run_def)
  with run_pending [OF p noRelevantMutation_scrolls, of n] c show
    "count_list (emitted (run (replicate (Suc n) ScrollNotification) w0)) k =
       count_list (emitted w0) k + 1" by simp
qed

text \<open>
  The test container scrolled to the bottom: ten scroll notifications emit
  \<open>ScrolledBottom\<close> once, and an irrelevant mutation batch in between changes nothing.
\<close>

theorem no_reraise_while_pending_witness:
  "isWaitingEvents (step ScrollNotification atBottom) ScrolledBottom \<and>
   noRelevantMutation ScrolledBottom
     [ScrollNotification, MutationNotification 0 [added []], ScrollNotification]
     (step ScrollNotification atBottom) \<and>
   near ScrolledBottom atBottom \<and> \<not> isWaitingEvents atBottom ScrolledBottom \<and>
   ScrolledBottom \<in> set (handleEvents atBottom) \<and>
   count_list (emitted (run [ScrollNotification, MutationNotification 0 [added []], ScrollNotification]
     (step ScrollNotification atBottom))) ScrolledBottom =
     count_list (emitted (step ScrollNotification atBottom)) ScrolledBottom \<and>
   count_list (emitted (run (replicate (Suc 9) ScrollNotification) atBottom)) ScrolledBottom = 1"
proof -
  let ?w = "step ScrollNotification atBottom"
  let ?acts = "[ScrollNotification, MutationNotification 0 [added []], ScrollNotification]"
  have p: "isWaitingEvents ?w ScrolledBottom" by (simp add: atBottom_def eval_defs)
  have q: "noRelevantMutation ScrolledBottom ?acts ?w" by (simp add: atBottom_def eval_defs)
  have n: "near ScrolledBottom atBottom" by (simp add: atBottom_def eval_defs)
  have i: "\<not> isWaitingEvents atBottom ScrolledBottom" by (simp add: atBottom_def eval_defs)
  have e: "ScrolledBottom \<in> set (handleEvents atBottom)" by (simp add: atBottom_def eval_defs)
  have z: "emitted atBottom = []" by (simp add: atBottom_def eval_defs)
  from no_reraise_while_pending [of ?w ScrolledBottom ?acts atBottom 9] p q n i e z
  show ?thesis by simp
qed

text \<open>
  C3 (amended). Raising Top snapshots the current \<open>(scrollHeight, scrollTop)\<close>. If no
  event of either kind is emitted between that raise and the delivery of a
  start-insertion to the Top observer, the delivery sets the container's \<open>scrollTop\<close> to
  the \<open>scrollTop\<close> at the raise plus the growth of \<open>scrollHeight\<close> since the raise.
\<close>

theorem reconciliation_from_baseline:
  assumes "\<not> isWaitingEvents w ScrolledTop" and "ScrolledTop \<in> set (handleEvents w)"
    and "w' = run acts (emitEvent ScrolledTop w)"
    and "emitted w' = emitted (emitEvent ScrolledTop w)"
    and "map_of (observing w') ob = Some ScrolledTop"
    and "startInsertion m (document w' (contentContainer w'))"
  shows "previousScrollHeight (emitEvent ScrolledTop w) = scrollHeight (document w (container w)) \<and>
         previousScrollTop (emitEvent ScrolledTop w) = scrollTop (document w (container w)) \<and>
         scrollTop (document (step (MutationNotification ob (m # ms)) w') (container w)) =
           scrollTop (document w (container w)) +
             (scrollHeight (document w' (container w)) - scrollHeight (document w (container w)))"
proof -
  let ?w1 = "emitEvent ScrolledTop w"
  from assms(1,2) have b: "previousScrollHeight ?w1 = scrollHeight (document w (container w))"
    "previousScrollTop ?w1 = scrollTop (document w (container w))"
    by (simp_all add: emitEvent_fires)
  from assms(3,4) have k: "previousScrollTop w' = previousScrollTop ?w1"
    "previousScrollHeight w' = previousScrollHeight ?w1"
    using run_snapshot [of acts ?w1] by simp_all
  from assms(3) have c: "container w' = container w"
    by (simp add: run_frame emitEvent_frame)
  have "step (MutationNotification ob (m # ms)) w' = handleContentChanges (cleared ScrolledTop w')"
    using assms(5,6) by (simp add: mutationCallback_Cons)
  then have "scrollTop (document (step (MutationNotification ob (m # ms)) w') (container w)) =
      previousScrollTop w' + (scrollHeight (document w' (container w)) - previousScrollHeight w')"
    by (simp add: handleContentChanges_def Let_def cleared_fields c)
  with b k show ?thesis by simp
qed

text \<open>Baseline (1000, 100), new \<open>scrollHeight\<close> 1200: the reconciled \<open>scrollTop\<close> is 300.\<close>

theorem reconciliation_from_baseline_witness:
  "\<not> isWaitingEvents nearTop100 ScrolledTop \<and> ScrolledTop \<in> set (handleEvents nearTop100) \<and>
   emitted (run prepended (emitEvent ScrolledTop nearTop100)) =
     emitted (emitEvent ScrolledTop nearTop100) \<and>
   map_of (observing (run prepended (emitEvent ScrolledTop nearTop100))) 0 = Some ScrolledTop \<and>
   startInsertion (added [newNode])
     (document (run prepended (emitEvent ScrolledTop nearTop100))
        (contentContainer (run prepended (emitEvent ScrolledTop nearTop100)))) \<and>
   previousScrollHeight (emitEvent ScrolledTop nearTop100) = 1000 \<and>
   previousScrollTop (emitEvent ScrolledTop nearTop100) = 100 \<and>
   scrollTop (document (step (MutationNotification 0 [added [newNode]])
       (run prepended (emitEvent ScrolledTop nearTop100))) 0) = 300"
proof -
  let ?w' = "run prepended (emitEvent ScrolledTop nearTop100)"
  have 1: "\<not> isWaitingEvents nearTop100 ScrolledTop" by (simp add: nearTop100_def eval_defs)
  have 2: "ScrolledTop \<in> set (handleEvents nearTop100)" by (simp add: nearTop100_def eval_defs)
  have 3: "emitted ?w' = emitted (emitEvent ScrolledTop nearTop100)"
    by (simp add: nearTop100_def prepended_def eval_defs)
  have 4: "map_of (observing ?w') 0 = Some ScrolledTop"
    by (simp add: nearTop100_def prepended_def eval_defs)
  have 5: "startInsertion (added [newNode]) (document ?w' (contentContainer ?w'))"
    by (simp add: nearTop100_def prepended_def eval_defs)
  have g: "container nearTop100 = 0" "scrollTop (document nearTop100 0) = 100"
    "scrollHeight (document nearTop100 0) = 1000" "scrollHeight (document ?w' 0) = 1200"
    by (simp_all add: nearTop100_def prepended_def eval_defs)
  from reconciliation_from_baseline [OF 1 2 refl 3 4 5, of "[]"] 1 2 3 4 5 g
  show ?thesis by simp
qed

text \<open>
  The claim as stated, "regardless of any other events raised in between", fails. Top is
  raised with baseline (1000, 100); the user scrolls to 800 and Bottom is raised, which
  overwrites the snapshot with (1000, 800); the prepend grows \<open>scrollHeight\<close> to 1200 and
  the Top observer writes 800 + 200 = 1000, not 100 + (1200 - 1000) = 300.
\<close>

theorem reconciliation_baseline_counterexample:
  "emitted (run [ScrollNotification] nearTop100) = [ScrolledTop] \<and>
   previousScrollHeight (run [ScrollNotification] nearTop100) = 1000 \<and>
   previousScrollTop (run [ScrollNotification] nearTop100) = 100 \<and>
   emitted (run bottomRaisedInBetween nearTop100) = [ScrolledTop, ScrolledBottom] \<and>
   scrollHeight (document (run bottomRaisedInBetween nearTop100) 0) = 1200 \<and>
   map_of (observing (run bottomRaisedInBetween nearTop100)) 0 = Some ScrolledTop \<and>
   startInsertion (added [newNode]) (document (run bottomRaisedInBetween nearTop100) 1) \<and>
   scrollTop (document (step (MutationNotification 0 [added [newNode]])
       (run bottomRaisedInBetween nearTop100)) 0) = 1000 \<and>
   scrollTop (document (step (MutationNotification 0 [added [newNode]])
       (run bottomRaisedInBetween nearTop100)) 0) \<noteq> 100 + (1200 - 1000)"
  by (simp add: nearTop100_def bottomRaisedInBetween_def eval_defs)

text \<open>
  C4 (amended). In every state reached from a constructed watcher by host changes, scroll
  notifications and mutation notifications, each kind has at most one connected
  observer, it is exactly the one held in the kind's handle, and the kind's pending flag
  is set iff the handle is non-null. A delivery to the kind's observer whose first record
  is relevant to the kind leaves no connected observer of the kind, a null handle and a
  cleared flag; a delivery whose first record is irrelevant leaves the state as it was,
  whatever the later records of the batch are.
\<close>

theorem observer_invariant:
  assumes "w = run acts (constructor doc c cc th he)"
  shows "length (activeObservers k w) \<le> 1 \<and>
         activeObservers k w = (case observerEvents w k of None \<Rightarrow> [] | Some ob \<Rightarrow> [ob]) \<and>
         (isWaitingEvents w k \<longleftrightarrow> observerEvents w k \<noteq> None) \<and>
         (map_of (observing w) ob = Some k \<longrightarrow> relevant k m (document w (contentContainer w)) \<longrightarrow>
            activeObservers k (step (MutationNotification ob (m # ms)) w) = [] \<and>
            observerEvents (step (MutationNotification ob (m # ms)) w) k = None \<and>
            \<not> isWaitingEvents (step (MutationNotification ob (m # ms)) w) k) \<and>
         (map_of (observing w) ob' = Some k \<longrightarrow> \<not> relevant k m' (document w (contentContainer w)) \<longrightarrow>
            step (MutationNotification ob' (m' # ms')) w = w)"
proof -
  from assms have i: "observerInvariant w" by (simp add: inv_run inv_constructor)
  have a: "activeObservers k w = (case observerEvents w k of None \<Rightarrow> [] | Some ob \<Rightarrow> [ob])"
    using i by (rule inv_active)
  then have l: "length (activeObservers k w) \<le> 1" by (simp split: option.splits)
  from i have f: "isWaitingEvents w k \<longleftrightarrow> observerEvents w k \<noteq> None"
    by (simp add: observerInvariant_def)
  have r: "activeObservers k (step (MutationNotification ob (m # ms)) w) = [] \<and>
            observerEvents (step (MutationNotification ob (m # ms)) w) k = None \<and>
            \<not> isWaitingEvents (step (MutationNotification ob (m # ms)) w) k"
    if "map_of (observing w) ob = Some k" "relevant k m (document w (contentContainer w))"
  proof -
    let ?w' = "step (MutationNotification ob (m # ms)) w"
    have i': "observerInvariant ?w'" using i by (rule inv_step)
    from that have h: "observerEvents ?w' k = None" "\<not> isWaitingEvents ?w' k"
      by (simp_all add: mutationCallback_Cons cleared_fields handleContentChanges_fields)
    with inv_active [OF i', of k] show ?thesis by simp
  qed
  have n: "step (MutationNotification ob' (m' # ms')) w = w"
    if "map_of (observing w) ob' = Some k" "\<not> relevant k m' (document w (contentContainer w))"
    using that by (simp add: mutationCallback_Cons)
  from l a f r n show ?thesis by blast
qed

text \<open>
  Top pending after a scroll notification at \<open>scrollTop = 0\<close>, with one node prepended.
\<close>

theorem observer_invariant_witness:
  "topPending = run [ScrollNotification, HostSet 1 (content [newNode])]
      (constructor testDocument 0 (Some 1) (Some 50) None) \<and>
   map_of (observing topPending) 0 = Some ScrolledTop \<and>
   relevant ScrolledTop (added [newNode]) (document topPending (contentContainer topPending)) \<and>
   \<not> relevant ScrolledTop (added []) (document topPending (contentContainer topPending)) \<and>
   activeObservers ScrolledTop topPending = [0] \<and>
   isWaitingEvents topPending ScrolledTop \<and>
   activeObservers ScrolledTop (step (MutationNotification 0 [added [newNode]]) topPending) = [] \<and>
   observerEvents (step (MutationNotification 0 [added [newNode]]) topPending) ScrolledTop = None \<and>
   \<not> isWaitingEvents (step (MutationNotification 0 [added [newNode]]) topPending) ScrolledTop \<and>
   step (MutationNotification 0 [added [], added [newNode]]) topPending = topPending"
proof -
  have 0: "topPending = run [ScrollNotification, HostSet 1 (content [newNode])]
      (constructor testDocument 0 (Some 1) (Some 50) None)"
    by (simp add: topPending_def infiniteScroll_def)
  have 1: "map_of (observing topPending) 0 = Some ScrolledTop"
    by (simp add: topPending_def eval_defs)
  have 2: "relevant ScrolledTop (added [newNode]) (document topPending (contentContainer topPending))"
    by (simp add: topPending_def eval_defs)
  have 3: "\<not> relevant ScrolledTop (added []) (document topPending (contentContainer topPending))"
    by (simp add: topPending_def eval_defs)
  have 4: "observerEvents topPending ScrolledTop = Some 0"
    by (simp add: topPending_def eval_defs)
  from observer_invariant [OF 0, of ScrolledTop 0 "added [newNode]" "[]" 0 "added []"
      "[added [newNode]]"] 0 1 2 3 4
  show ?thesis by simp
qed

text \<open>
  The claim as stated, that a relevant mutation for a kind releases the kind's observer
  and clears its flag, fails when the relevant record is not the first of its batch. Top
  is pending and one node has been prepended; the batch delivered to the Top observer
  holds an irrelevant record followed by the start-insertion. The callback reads
  \<open>mutations[0]\<close> only: Top stays pending, its handle stays set and its observer stays
  connected.
\<close>

theorem later_relevant_record_counterexample:
  "topPending = run [ScrollNotification, HostSet 1 (content [newNode])]
      (constructor testDocument 0 (Some 1) (Some 50) None) \<and>
   map_of (observing topPending) 0 = Some ScrolledTop \<and>
   added [newNode] \<in> set [added [], added [newNode]] \<and>
   relevant ScrolledTop (added [newNode]) (document topPending (contentContainer topPending)) \<and>
   isWaitingEvents (step (MutationNotification 0 [added [], added [newNode]]) topPending)
     ScrolledTop \<and>
   observerEvents (step (MutationNotification 0 [added [], added [newNode]]) topPending)
     ScrolledTop = Some 0 \<and>
   activeObservers ScrolledTop
     (step (MutationNotification 0 [added [], added [newNode]]) topPending) = [0]"
  by (simp add: topPending_def activeObservers_def eval_defs)

text \<open>
  C5 (amended). A scroll notification emits, in this order, those of Bottom and Top that
  are near, idle and enabled. When both predicates hold, the pass is the raise of Bottom
  followed by the raise of Top, and with both kinds enabled and idle it emits Bottom and
  then Top.
\<close>

theorem bottom_before_top:
  "emitted (handleScroll w) = emitted w @ filter (\<lambda>k. raised k w) [ScrolledBottom, ScrolledTop] \<and>
   (isScrolledBottom w \<longrightarrow> isScrolledTop w \<longrightarrow>
      handleScroll w = emitEvent ScrolledTop (emitEvent ScrolledBottom w) \<and>
      (ScrolledBottom \<in> set (handleEvents w) \<longrightarrow> ScrolledTop \<in> set (handleEvents w) \<longrightarrow>
       \<not> isWaitingEvents w ScrolledBottom \<longrightarrow> \<not> isWaitingEvents w ScrolledTop \<longrightarrow>
         emitted (handleScroll w) = emitted w @ [ScrolledBottom, ScrolledTop]))"
  by (simp add: handleScroll_emitted raised_def) (simp add: handleScroll_both)

text \<open>
  \<open>clientHeight = 200\<close>, \<open>scrollHeight = 1000\<close>, threshold 400, \<open>scrollTop = 400\<close>: both
  boundaries are near.
\<close>

theorem bottom_before_top_witness:
  "isScrolledBottom bothNear \<and> isScrolledTop bothNear \<and>
   ScrolledBottom \<in> set (handleEvents bothNear) \<and> ScrolledTop \<in> set (handleEvents bothNear) \<and>
   \<not> isWaitingEvents bothNear ScrolledBottom \<and> \<not> isWaitingEvents bothNear ScrolledTop \<and>
   emitted (handleScroll bothNear) = [ScrolledBottom, ScrolledTop]"
proof -
  have h: "isScrolledBottom bothNear" "isScrolledTop bothNear"
    "ScrolledBottom \<in> set (handleEvents bothNear)" "ScrolledTop \<in> set (handleEvents bothNear)"
    "\<not> isWaitingEvents bothNear ScrolledBottom" "\<not> isWaitingEvents bothNear ScrolledTop"
    "emitted bothNear = []"
    by (simp_all add: bothNear_def eval_defs)
  from bottom_before_top [of bothNear] h
  have "emitted (handleScroll bothNear) = emitted bothNear @ [ScrolledBottom, ScrolledTop]"
    by blast
  with h show ?thesis by simp
qed

text \<open>
  The geometry the claim gives as an example of both boundaries being near,
  \<open>clientHeight = 200\<close>, \<open>scrollHeight = 1000\<close>, threshold 50, \<open>scrollTop = 750\<close>, is not
  one: \<open>isScrolledTop\<close> is false there (750 > 50) and the pass raises Bottom alone.
\<close>

theorem both_near_example_counterexample:
  "threshold (step (HostSet 0 (geometry 750 1000 200)) infiniteScroll) = 50 \<and>
   isScrolledBottom (step (HostSet 0 (geometry 750 1000 200)) infiniteScroll) \<and>
   \<not> isScrolledTop (step (HostSet 0 (geometry 750 1000 200)) infiniteScroll) \<and>
   emitted (step ScrollNotification (step (HostSet 0 (geometry 750 1000 200)) infiniteScroll)) =
     [ScrolledBottom]"
  by (simp add: eval_defs)

text \<open>
  C6. For a kind absent from \<open>handleEvents\<close>, the raise is a no-op that returns the state
  unchanged, and no run of host changes (any geometry), scroll notifications and
  mutation notifications emits an event of that kind or alters \<open>handleEvents\<close>.
\<close>

theorem disabled_kind_never_raised:
  assumes "k \<notin> set (handleEvents w)"
  shows "emitEvent k w = w \<and>
         handleEvents (run acts w) = handleEvents w \<and>
         count_list (emitted (run acts w)) k = count_list (emitted w) k"
  using assms by (simp add: emitEvent_noop run_frame run_disabled)

text \<open>
  The test's \<open>customScroll\<close>, which handles \<open>ScrolledTop\<close> only, scrolled to the bottom.
\<close>

theorem disabled_kind_never_raised_witness:
  "ScrolledBottom \<notin> set (handleEvents customScroll) \<and>
   emitEvent ScrolledBottom customScroll = customScroll \<and>
   count_list (emitted (run [HostSet 0 (geometry 800 1000 200), ScrollNotification] customScroll))
     ScrolledBottom = 0"
proof -
  have h: "ScrolledBottom \<notin> set (handleEvents customScroll)" "emitted customScroll = []"
    by (simp_all add: customScroll_def eval_defs)
  from disabled_kind_never_raised [OF h(1), of "[HostSet 0 (geometry 800 1000 200), ScrollNotification]"] h
  show ?thesis by simp
qed

text \<open>
  C7. With Bottom pending, the delivery of an end-insertion to the Bottom observer clears
  the Bottom flag, nulls the handle and disconnects the observer, and writes nothing to
  the document: the container's \<open>scrollTop\<close> is what the host last set.
\<close>

theorem bottom_insertion_no_scroll_write:
  assumes "observerEvents w ScrolledBottom = Some ob"
    and "map_of (observing w) ob = Some ScrolledBottom"
    and "endInsertion m (document w (contentContainer w))"
  shows "\<not> isWaitingEvents (step (MutationNotification ob (m # ms)) w) ScrolledBottom \<and>
         observerEvents (step (MutationNotification ob (m # ms)) w) ScrolledBottom = None \<and>
         ob \<notin> fst ` set (observing (step (MutationNotification ob (m # ms)) w)) \<and>
         document (step (MutationNotification ob (m # ms)) w) = document w"
  using assms by (auto simp: mutationCallback_Cons cleared_fields cleared_observing)

text \<open>Bottom raised at \<open>scrollTop = 800\<close>, then one node appended.\<close>

theorem bottom_insertion_no_scroll_write_witness:
  "observerEvents bottomPendingAppended ScrolledBottom = Some 0 \<and>
   map_of (observing bottomPendingAppended) 0 = Some ScrolledBottom \<and>
   endInsertion (added [newNode])
     (document bottomPendingAppended (contentContainer bottomPendingAppended)) \<and>
   \<not> isWaitingEvents (step (MutationNotification 0 [added [newNode]]) bottomPendingAppended)
       ScrolledBottom \<and>
   scrollTop (document (step (MutationNotification 0 [added [newNode]]) bottomPendingAppended) 0) =
     800"
proof -
  have 1: "observerEvents bottomPendingAppended ScrolledBottom = Some 0"
    by (simp add: bottomPendingAppended_def atBottom_def eval_defs)
  have 2: "map_of (observing bottomPendingAppended) 0 = Some ScrolledBottom"
    by (simp add: bottomPendingAppended_def atBottom_def eval_defs)
  have 3: "endInsertion (added [newNode])
     (document bottomPendingAppended (contentContainer bottomPendingAppended))"
    by (simp add: bottomPendingAppended_def atBottom_def eval_defs)
  have 4: "scrollTop (document bottomPendingAppended 0) = 800"
    by (simp add: bottomPendingAppended_def atBottom_def eval_defs)
  from bottom_insertion_no_scroll_write [OF 1 2 3, of "[]"] 1 2 3 4 show ?thesis by simp
qed

text \<open>
  C8. The callback's result on a batch depends on the first record only. When the first
  record is irrelevant to the kind, the delivery leaves the state, and so the pending
  flag, unchanged, whatever the later records of the batch are.
\<close>

theorem first_record_only:
  "mutationCallback k (m # ms) w = mutationCallback k [m] w \<and>
   (map_of (observing w) ob = Some k \<longrightarrow> \<not> relevant k m (document w (contentContainer w)) \<longrightarrow>
      step (MutationNotification ob (m # ms)) w = w \<and>
      isWaitingEvents (step (MutationNotification ob (m # ms)) w) k = isWaitingEvents w k)"
  by (simp add: mutationCallback_Cons)

text \<open>
  Top pending; the batch holds an irrelevant record followed by a start-insertion.
\<close>

theorem first_record_only_witness:
  "map_of (observing topPending) 0 = Some ScrolledTop \<and>
   \<not> relevant ScrolledTop (added []) (document topPending (contentContainer topPending)) \<and>
   relevant ScrolledTop (added [newNode]) (document topPending (contentContainer topPending)) \<and>
   step (MutationNotification 0 [added [], added [newNode]]) topPending = topPending \<and>
   isWaitingEvents (step (MutationNotification 0 [added [], added [newNode]]) topPending) ScrolledTop"
proof -
  have 1: "map_of (observing topPending) 0 = Some ScrolledTop"
    by (simp add: topPending_def eval_defs)
  have 2: "\<not> relevant ScrolledTop (added []) (document topPending (contentContainer topPending))"
    by (simp add: topPending_def eval_defs)
  have 3: "relevant ScrolledTop (added [newNode]) (document topPending (contentContainer topPending))"
    by (simp add: topPending_def eval_defs)
  have 4: "isWaitingEvents topPending ScrolledTop"
    by (simp add: topPending_def eval_defs)
  from first_record_only [of ScrolledTop "added []" "[added [newNode]]" topPending 0] 1 2
  have "step (MutationNotification 0 [added [], added [newNode]]) topPending = topPending"
    by blast
  with 1 2 3 4 show ?thesis by (simp del: step.simps)
qed

text \<open>
  C9. The constructor stores a given threshold as it is, negative or not. With a
  negative threshold and \<open>0 \<le> scrollTop \<le> scrollHeight - clientHeight\<close>, neither
  predicate holds, and a scroll notification changes nothing.
\<close>

theorem negative_threshold_unreachable:
  "threshold (constructor doc c cc (Some t) he) = t \<and>
   (threshold w < 0 \<longrightarrow> 0 \<le> scrollTop (document w (container w)) \<longrightarrow>
    scrollTop (document w (container w)) \<le>
      scrollHeight (document w (container w)) - clientHeight (document w (container w)) \<longrightarrow>
      \<not> isScrolledTop w \<and> \<not> isScrolledBottom w \<and> handleScroll w = w)"
  by (simp add: constructor_def isScrolledTop_def isScrolledBottom_def handleScroll_def)

text \<open>The test container with threshold \<open>-1\<close>.\<close>

theorem negative_threshold_unreachable_witness:
  "threshold (constructor testDocument 0 (Some 1) (Some (- 1)) None) < 0 \<and>
   0 \<le> scrollTop (testDocument 0) \<and>
   scrollTop (testDocument 0) \<le> scrollHeight (testDocument 0) - clientHeight (testDocument 0) \<and>
   \<not> isScrolledTop (constructor testDocument 0 (Some 1) (Some (- 1)) None) \<and>
   \<not> isScrolledBottom (constructor testDocument 0 (Some 1) (Some (- 1)) None)"
proof -
  let ?w = "constructor testDocument 0 (Some 1) (Some (- 1)) None"
  have d: "document ?w (container ?w) = testDocument 0" by (simp add: constructor_def)
  have g: "scrollTop (testDocument 0) = 0" "scrollHeight (testDocument 0) = 1000"
    "clientHeight (testDocument 0) = 200"
    by (simp_all add: testDocument_def geometry_def)
  from negative_threshold_unreachable [of testDocument 0 "Some 1" "- 1" None ?w] d g
  show ?thesis by simp
qed

text \<open>
  C10. A raise of kind \<open>k\<close> leaves the flag and the handle of the other kind as they
  were and overwrites the one snapshot with the current \<open>(scrollHeight, scrollTop)\<close>,
  whichever kind \<open>k\<close> is; a reconciliation after it, at any later document \<open>d\<close>, starts
  from that snapshot.
\<close>

theorem raise_shares_snapshot:
  assumes "\<not> isWaitingEvents w k" and "k \<in> set (handleEvents w)" and "k' \<noteq> k"
  shows "isWaitingEvents (emitEvent k w) k' = isWaitingEvents w k' \<and>
         observerEvents (emitEvent k w) k' = observerEvents w k' \<and>
         previousScrollHeight (emitEvent k w) = scrollHeight (document w (container w)) \<and>
         previousScrollTop (emitEvent k w) = scrollTop (document w (container w)) \<and>
         scrollTop (document (handleContentChanges (emitEvent k w\<lparr>document := d\<rparr>)) (container w)) =
           scrollTop (document w (container w)) +
             (scrollHeight (d (container w)) - scrollHeight (document w (container w)))"
  using assms by (simp add: emitEvent_fires handleContentChanges_def Let_def)

text \<open>
  Top is pending with snapshot \<open>scrollTop\<close> 100; the raise of Bottom at \<open>scrollTop = 800\<close>
  keeps Top's flag and handle and replaces the snapshot.
\<close>

theorem raise_shares_snapshot_witness:
  "\<not> isWaitingEvents (run [ScrollNotification, HostSet 0 (geometry 800 1000 200)] nearTop100)
       ScrolledBottom \<and>
   ScrolledBottom \<in> set (handleEvents
     (run [ScrollNotification, HostSet 0 (geometry 800 1000 200)] nearTop100)) \<and>
   ScrolledTop \<noteq> ScrolledBottom \<and>
   previousScrollTop (run [ScrollNotification, HostSet 0 (geometry 800 1000 200)] nearTop100) = 100 \<and>
   isWaitingEvents (emitEvent ScrolledBottom
     (run [ScrollNotification, HostSet 0 (geometry 800 1000 200)] nearTop100)) ScrolledTop \<and>
   observerEvents (emitEvent ScrolledBottom
     (run [ScrollNotification, HostSet 0 (geometry 800 1000 200)] nearTop100)) ScrolledTop = Some 0 \<and>
   previousScrollTop (emitEvent ScrolledBottom
     (run [ScrollNotification, HostSet 0 (geometry 800 1000 200)] nearTop100)) = 800 \<and>
   previousScrollHeight (emitEvent ScrolledBottom
     (run [ScrollNotification, HostSet 0 (geometry 800 1000 200)] nearTop100)) = 1000"
proof -
  let ?w = "run [ScrollNotification, HostSet 0 (geometry 800 1000 200)] nearTop100"
  have 1: "\<not> isWaitingEvents ?w ScrolledBottom" by (simp add: nearTop100_def eval_defs)
  have 2: "ScrolledBottom \<in> set (handleEvents ?w)" by (simp add: nearTop100_def eval_defs)
  have 3: "ScrolledTop \<noteq> ScrolledBottom" by simp
  have g: "isWaitingEvents ?w ScrolledTop" "observerEvents ?w ScrolledTop = Some 0"
    "previousScrollTop ?w = 100" "container ?w = 0"
    "scrollTop (document ?w 0) = 800" "scrollHeight (document ?w 0) = 1000"
    by (simp_all add: nearTop100_def eval_defs)
  from raise_shares_snapshot [OF 1 2 3, of "document ?w"] 1 2 g show ?thesis by simp
qed

end
